theory Spec2Isabelle
  imports Main
begin

section \<open>The flashcard utility \<^verbatim>\<open>flashcards.py\<close>\<close>

text \<open>
  The program reads a text file into the global list \<^verbatim>\<open>flashcards\<close>, then prints a
  randomly chosen card every \<^verbatim>\<open>wait\<close> seconds until a hotkey sets the global flag
  \<^verbatim>\<open>stop_flashcards\<close>. The model passes the two globals and the standard output
  explicitly, and takes from an environment everything the program does not decide
  itself: what opening and reading a file yields, the draws of the random generator and
  the moments at which a hotkey is pressed.
\<close>

subsection \<open>Values, exceptions, state and environment\<close>

text \<open>
  The value of \<^verbatim>\<open>args.wait\<close>: the parser's default is the integer 5, a value given on
  the command line is kept as the string it was typed as.
\<close>

datatype pyval = PyInt int | PyStr string

text \<open>The exceptions that the statements of the program can raise.\<close>

datatype exn =
    OSError string
  | UnicodeDecodeError
  | IndexError
  | TypeError
  | ValueError
  | OverflowError
  | SystemExit nat

text \<open>
  The module's globals and the lines written so far by \<^verbatim>\<open>print\<close> (one entry for each
  call, the text without the newline that \<^verbatim>\<open>print\<close> adds).
\<close>

record state =
  flashcards :: "string list"
  stop_flashcards :: bool
  stdout :: "string list"

text \<open>
  \<^item> \<open>files ev path\<close>: what \<^verbatim>\<open>open(path)\<close> followed by \<^verbatim>\<open>f.read()\<close> yields, the
    exception raised or the text read;
  \<^item> \<open>randoms ev i\<close>: the \<open>i\<close>-th draw of the random generator;
  \<^item> \<open>hotkey ev k\<close>: whether \<^verbatim>\<open>Esc\<close> or \<^verbatim>\<open>q\<close> was pressed, so that the registered
    callback ran, in the interval that ends with the \<open>k\<close>-th evaluation of the loop
    condition \<^verbatim>\<open>not stop_flashcards\<close> (counted from 0). For \<open>k = 0\<close> that is the time
    between the registration of the hotkeys and the first test, for \<open>k > 0\<close> the whole
    preceding iteration with its \<^verbatim>\<open>time.sleep(wait)\<close>.
\<close>

record env =
  files :: "string \<Rightarrow> exn + string"
  randoms :: "nat \<Rightarrow> nat"
  hotkey :: "nat \<Rightarrow> bool"

text \<open>
  How a call ends: it returns, or it raises an exception that nothing catches; in both
  cases with the state reached by then.
\<close>

datatype outcome = Returns state | Raises exn state

fun final :: "outcome \<Rightarrow> state" where
  "final (Returns s) = s"
| "final (Raises e s) = s"

subsection \<open>Library functions used by the program\<close>

text \<open>
  \<^verbatim>\<open>str.splitlines()\<close>: the line boundaries among the characters below 256 are
  \<^verbatim>\<open>\n\<close>, \<^verbatim>\<open>\r\<close>, \<^verbatim>\<open>\r\n\<close>, \<^verbatim>\<open>\v\<close>, \<^verbatim>\<open>\f\<close>, \<^verbatim>\<open>\x1c\<close>, \<^verbatim>\<open>\x1d\<close>, \<^verbatim>\<open>\x1e\<close> and
  \<^verbatim>\<open>\x85\<close> (a \<open>char\<close> is one of 256 code points, so U+2028 and U+2029 do not occur).
  A boundary ends the line before it; text after the last boundary is a line of its own
  when it is not empty.
\<close>

definition is_linebreak :: "char \<Rightarrow> bool" where
  "is_linebreak c \<longleftrightarrow>
     c = CHR 0x0A \<or> c = CHR 0x0D \<or> c = CHR 0x0B \<or> c = CHR 0x0C \<or>
     c = CHR 0x1C \<or> c = CHR 0x1D \<or> c = CHR 0x1E \<or> c = CHR 0x85"

fun after_break :: "char \<Rightarrow> string \<Rightarrow> string" where
  "after_break c [] = []"
| "after_break c (d # ds) = (if c = CHR 0x0D \<and> d = CHR 0x0A then ds else d # ds)"

function splitlines :: "string \<Rightarrow> string list" where
  "splitlines s =
     (if s = [] then []
      else (case dropWhile (\<lambda>c. \<not> is_linebreak c) s of
              [] \<Rightarrow> [s]
            | c # rest \<Rightarrow>
                takeWhile (\<lambda>c. \<not> is_linebreak c) s # splitlines (after_break c rest)))"
  by pat_completeness auto

termination splitlines
proof (relation "measure length")
  show "wf (measure length)" by simp
next
  fix s :: string and c rest
  assume "dropWhile (\<lambda>c. \<not> is_linebreak c) s = c # rest"
  then have "Suc (length rest) \<le> length s"
    by (metis length_Cons length_dropWhile_le)
  moreover have "length (after_break c rest) \<le> length rest"
    by (cases rest) auto
  ultimately show "(after_break c rest, s) \<in> measure length"
    by simp
qed

declare splitlines.simps [simp del]

text \<open>
  \<^verbatim>\<open>random.choice(seq)\<close> raises \<^verbatim>\<open>IndexError\<close> on an empty sequence and otherwise
  returns the element at a random index below \<^verbatim>\<open>len(seq)\<close>; the index is the draw
  \<open>r\<close> reduced to that range.
\<close>

definition choice :: "string list \<Rightarrow> nat \<Rightarrow> exn + string" where
  "choice seq r = (if seq = [] then Inl IndexError else Inr (seq ! (r mod length seq)))"

text \<open>
  \<^verbatim>\<open>time.sleep(secs)\<close> raises \<^verbatim>\<open>TypeError\<close> when \<^verbatim>\<open>secs\<close> is not a number,
  \<^verbatim>\<open>ValueError\<close> when it is negative and \<^verbatim>\<open>OverflowError\<close> when its nanoseconds do
  not fit into 64 bits; otherwise it returns after the delay.
\<close>

fun sleep :: "pyval \<Rightarrow> exn + unit" where
  "sleep (PyStr s) = Inl TypeError"
| "sleep (PyInt n) =
     (if n < 0 then Inl ValueError
      else if 2 ^ 63 \<le> n * 10 ^ 9 then Inl OverflowError
      else Inr ())"

subsection \<open>\<^verbatim>\<open>load_flashcards\<close>\<close>

text \<open>The condition of the list comprehension, \<^verbatim>\<open>card and card[0] != '#'\<close>.\<close>

fun keep_card :: "string \<Rightarrow> bool" where
  "keep_card [] = False"
| "keep_card (c # cs) = (c \<noteq> CHR ''#'')"

text \<open>
  The result is the returned boolean, or the exception that escapes: the handler
  catches \<^verbatim>\<open>OSError\<close> only, prints it and returns \<^verbatim>\<open>False\<close> before any assignment to
  \<^verbatim>\<open>flashcards\<close>.
\<close>

definition load_flashcards :: "env \<Rightarrow> string \<Rightarrow> state \<Rightarrow> (exn + bool) \<times> state" where
  "load_flashcards ev flashcard_file st =
     (case files ev flashcard_file of
        Inl (OSError msg) \<Rightarrow> (Inr False, st\<lparr>stdout := stdout st @ [msg]\<rparr>)
      | Inl e \<Rightarrow> (Inl e, st)
      | Inr text \<Rightarrow>
          (let st1 = st\<lparr>flashcards := splitlines text\<rparr>
           in (Inr True, st1\<lparr>flashcards := filter keep_card (flashcards st1)\<rparr>)))"

subsection \<open>\<^verbatim>\<open>quit_flashcards\<close> and \<^verbatim>\<open>show_flashcards\<close>\<close>

definition quit_flashcards :: "state \<Rightarrow> state" where
  "quit_flashcards st = st\<lparr>stop_flashcards := True\<rparr>"

text \<open>
  The inner loop \<^verbatim>\<open>while card == last_card: card = random.choice(flashcards)\<close>, entered
  with the card \<open>crd\<close> chosen first and the index \<open>i\<close> of the next draw. \<^verbatim>\<open>last_card\<close> is
  \<^verbatim>\<open>None\<close> before the first card, and no string equals \<^verbatim>\<open>None\<close>. The loop need not
  end: then the value is \<open>None\<close>.
\<close>

partial_function (option) rechoose ::
  "string list \<Rightarrow> (nat \<Rightarrow> nat) \<Rightarrow> string option \<Rightarrow> string \<Rightarrow> nat \<Rightarrow> (exn + string \<times> nat) option"
where
  "rechoose deck rnd last_card crd i =
     (if Some crd = last_card
      then (case choice deck (rnd i) of
              Inl e \<Rightarrow> Some (Inl e)
            | Inr crd' \<Rightarrow> rechoose deck rnd last_card crd' (Suc i))
      else Some (Inr (crd, i)))"

text \<open>
  The outer loop, entered at the \<open>k\<close>-th test of \<^verbatim>\<open>not stop_flashcards\<close> with the index
  \<open>i\<close> of the next draw. A hotkey pressed since the previous test has run
  \<^verbatim>\<open>quit_flashcards\<close> by now. The value is \<open>None\<close> when the loop never ends. The two
  calls before the loop leave the state alone: the registered hotkeys act through
  \<open>hotkey ev\<close>, the seeded generator through \<open>randoms ev\<close>.
\<close>

partial_function (option) show_loop ::
  "env \<Rightarrow> pyval \<Rightarrow> state \<Rightarrow> string option \<Rightarrow> nat \<Rightarrow> nat \<Rightarrow> outcome option"
where
  "show_loop ev wait st last_card i k =
     (let st1 = (if hotkey ev k then quit_flashcards st else st) in
      if stop_flashcards st1 then Some (Returns st1)
      else (case choice (flashcards st1) (randoms ev i) of
              Inl e \<Rightarrow> Some (Raises e st1)
            | Inr crd0 \<Rightarrow>
                (case rechoose (flashcards st1) (randoms ev) last_card crd0 (Suc i) of
                   None \<Rightarrow> None
                 | Some (Inl e) \<Rightarrow> Some (Raises e st1)
                 | Some (Inr (crd, i')) \<Rightarrow>
                     (let st2 = st1\<lparr>stdout := stdout st1 @ [crd]\<rparr> in
                      case sleep wait of
                        Inl e \<Rightarrow> Some (Raises e st2)
                      | Inr u \<Rightarrow> show_loop ev wait st2 (Some crd) i' (Suc k)))))"

declare rechoose.simps [code] show_loop.simps [code]

definition show_flashcards :: "env \<Rightarrow> pyval \<Rightarrow> state \<Rightarrow> outcome option" where
  "show_flashcards ev wait st = show_loop ev wait st None 0 0"

text \<open>The cards printed between two states of one run.\<close>

definition shown :: "state \<Rightarrow> state \<Rightarrow> string list" where
  "shown st st' = drop (length (stdout st)) (stdout st')"

subsection \<open>\<^verbatim>\<open>main\<close>\<close>

text \<open>
  The command line after the parser has split it: the value given with \<^verbatim>\<open>-f\<close> or
  \<^verbatim>\<open>--flashcards\<close> and the value given with \<^verbatim>\<open>-w\<close> or \<^verbatim>\<open>--wait\<close>, where present.
  Neither \<^verbatim>\<open>add_argument\<close> call passes \<^verbatim>\<open>type=\<close>, so the parser stores the given string
  as it is, and the default when the option is absent.
\<close>

record cli =
  cli_flashcards :: "string option"
  cli_wait :: "string option"

record args =
  args_flashcards :: string
  args_wait :: pyval

definition parse_args :: "cli \<Rightarrow> args" where
  "parse_args cl =
     \<lparr>args_flashcards = (case cli_flashcards cl of None \<Rightarrow> ''flashcards.txt'' | Some s \<Rightarrow> s),
      args_wait = (case cli_wait cl of None \<Rightarrow> PyInt 5 | Some s \<Rightarrow> PyStr s)\<rparr>"

definition VERSION :: string where
  "VERSION = ''v1.00''"

definition banner :: "string list" where
  "banner = [''==================='', ''Flashcards    '' @ VERSION, ''==================='' @ [CHR 0x0A]]"

definition main :: "env \<Rightarrow> cli \<Rightarrow> state \<Rightarrow> outcome option" where
  "main ev cl st =
     (let st0 = st\<lparr>stdout := stdout st @ banner\<rparr>;
          a = parse_args cl
      in case load_flashcards ev (args_flashcards a) st0 of
           (Inl e, st1) \<Rightarrow> Some (Raises e st1)
         | (Inr ok, st1) \<Rightarrow>
             if \<not> ok then Some (Raises (SystemExit 1) st1)
             else show_flashcards ev (args_wait a) st1)"

text \<open>
  The exit status of the interpreter: 0 when \<^verbatim>\<open>main\<close> returns, the argument of
  \<^verbatim>\<open>exit\<close>, and 1 after a traceback for any other exception.
\<close>

fun exit_code :: "outcome \<Rightarrow> nat" where
  "exit_code (Returns s) = 0"
| "exit_code (Raises (SystemExit n) s) = n"
| "exit_code (Raises e s) = 1"

subsection \<open>Files as lines, and the inputs of the examples\<close>

text \<open>
  A line is a string without line boundary. \<open>file_text ls\<close> is the text of the file
  whose lines are \<open>ls\<close>, each ended by \<^verbatim>\<open>\n\<close>. \<open>usable_lines\<close> is the deck as the
  specification words it: the lines that are not empty and do not start with \<^verbatim>\<open>#\<close>,
  in their order.
\<close>

definition is_line :: "string \<Rightarrow> bool" where
  "is_line l = list_all (\<lambda>c. \<not> is_linebreak c) l"

definition file_text :: "string list \<Rightarrow> string" where
  "file_text ls = concat (map (\<lambda>l. l @ [CHR 0x0A]) ls)"

definition usable_lines :: "string list \<Rightarrow> string list" where
  "usable_lines ls = filter (\<lambda>l. l \<noteq> [] \<and> hd l \<noteq> CHR ''#'') ls"

text \<open>
  The globals as the module initialises them, with nothing printed yet, and the command
  line without options.
\<close>

definition init_state :: state where
  "init_state = \<lparr>flashcards = [], stop_flashcards = False, stdout = []\<rparr>"

definition no_options :: cli where
  "no_options = \<lparr>cli_flashcards = None, cli_wait = None\<rparr>"

text \<open>
  The text of the \<^verbatim>\<open>FileNotFoundError\<close> (an \<^verbatim>\<open>OSError\<close>) that \<^verbatim>\<open>open\<close> raises for a
  missing file, as \<^verbatim>\<open>print(e)\<close> writes it.
\<close>

definition no_such_file :: "string \<Rightarrow> string" where
  "no_such_file p = ''[Errno 2] No such file or directory: '' @ [CHR 0x27] @ p @ [CHR 0x27]"

text \<open>
  An environment in which \<^verbatim>\<open>flashcards.txt\<close> holds the lines \<open>ls\<close> and no other file
  exists.
\<close>

definition example_env :: "string list \<Rightarrow> (nat \<Rightarrow> nat) \<Rightarrow> (nat \<Rightarrow> bool) \<Rightarrow> env" where
  "example_env ls rnd keys =
     \<lparr>files = (\<lambda>p. if p = ''flashcards.txt'' then Inr (file_text ls)
                   else Inl (OSError (no_such_file p))),
      randoms = rnd,
      hotkey = keys\<rparr>"


section \<open>Properties\<close>

subsection \<open>Splitting a text into lines\<close>

lemma keep_card_iff: "keep_card l \<longleftrightarrow> l \<noteq> [] \<and> hd l \<noteq> CHR ''#''"
  by (cases l) simp_all

lemma filter_keep_card: "filter keep_card ls = usable_lines ls"
  unfolding usable_lines_def by (induction ls) (simp_all add: keep_card_iff)

lemma splitlines_Nil: "splitlines [] = []"
  by (simp add: splitlines.simps)

lemma splitlines_no_break:
  assumes "s \<noteq> []" and d: "dropWhile (\<lambda>c. \<not> is_linebreak c) s = []"
  shows "splitlines s = [s]"
  unfolding splitlines.simps [of s] d using assms(1) by simp

lemma splitlines_break:
  "dropWhile (\<lambda>c. \<not> is_linebreak c) s = c # rest \<Longrightarrow>
   splitlines s = takeWhile (\<lambda>c. \<not> is_linebreak c) s # splitlines (after_break c rest)"
  by (cases "s = []") (simp_all add: splitlines.simps [of s])


lemma splitlines_lines: "list_all is_line (splitlines s)"
proof (induction s rule: splitlines.induct)
  case (1 s)
  show ?case
  proof (cases "s = []")
    case True
    then show ?thesis by (simp add: splitlines_Nil)
  next
    case False
    show ?thesis
    proof (cases "dropWhile (\<lambda>c. \<not> is_linebreak c) s")
      case Nil
      then have "\<forall>c\<in>set s. \<not> is_linebreak c"
        by (simp add: dropWhile_eq_Nil_conv)
      with splitlines_no_break [OF False Nil] show ?thesis
        by (simp add: is_line_def list_all_iff)
    next
      case (Cons c rest)
      have "is_line (takeWhile (\<lambda>c. \<not> is_linebreak c) s)"
        unfolding is_line_def list_all_iff using set_takeWhileD by fastforce
      with splitlines_break [OF Cons] "1.IH" [OF False Cons] show ?thesis
        by simp
    qed
  qed
qed

lemma splitlines_line_newline:
  assumes "is_line l"
  shows "splitlines (l @ CHR 0x0A # t) = l # splitlines t"
proof -
  from assms have nb: "\<forall>c\<in>set l. \<not> is_linebreak c"
    by (simp add: is_line_def list_all_iff)
  have br: "is_linebreak (CHR 0x0A)"
    by (simp add: is_linebreak_def)
  from nb br have d: "dropWhile (\<lambda>c. \<not> is_linebreak c) (l @ CHR 0x0A # t) = CHR 0x0A # t"
    by (simp add: dropWhile_append3)
  from nb br have t: "takeWhile (\<lambda>c. \<not> is_linebreak c) (l @ CHR 0x0A # t) = l"
    by (simp add: takeWhile_tail)
  have a: "after_break (CHR 0x0A) t = t"
    by (cases t) simp_all
  show ?thesis
    using splitlines_break [OF d] by (simp add: t a)
qed

lemma splitlines_last_line:
  assumes "is_line l"
  shows "splitlines l = (if l = [] then [] else [l])"
proof -
  from assms have "dropWhile (\<lambda>c. \<not> is_linebreak c) l = []"
    by (simp add: is_line_def list_all_iff)
  then show ?thesis
    using splitlines_no_break [of l] by (simp add: splitlines_Nil)
qed

lemma splitlines_file_text:
  "list_all is_line ls \<Longrightarrow> is_line l \<Longrightarrow>
   splitlines (file_text ls @ l) = ls @ (if l = [] then [] else [l])"
proof (induction ls)
  case Nil
  then show ?case
    using splitlines_last_line [of l] by (simp add: file_text_def)
next
  case (Cons a ls)
  then have "splitlines (file_text ls @ l) = ls @ (if l = [] then [] else [l])"
    by simp
  moreover have "file_text (a # ls) @ l = a @ CHR 0x0A # (file_text ls @ l)"
    by (simp add: file_text_def)
  moreover from Cons.prems have "is_line a"
    by simp
  ultimately show ?case
    using splitlines_line_newline [of a "file_text ls @ l"] by simp
qed

lemma splitlines_file_text_lines: "list_all is_line ls \<Longrightarrow> splitlines (file_text ls) = ls"
  using splitlines_file_text [of ls "[]"] by (simp add: is_line_def)

subsection \<open>The two loops of \<^verbatim>\<open>show_flashcards\<close>\<close>

lemma choice_in_deck: "choice deck r = Inr c \<Longrightarrow> c \<in> set deck"
  by (auto simp: choice_def split: if_splits)

lemma choice_Nil: "choice [] r = Inl IndexError"
  by (simp add: choice_def)

lemma choice_not_IndexError: "deck \<noteq> [] \<Longrightarrow> \<exists>c. choice deck r = Inr c"
  by (simp add: choice_def)

lemma rechoose_differs:
  assumes run: "rechoose deck rnd last_card crd i = Some (Inr (c, j))"
  shows "Some c \<noteq> last_card \<and> (c = crd \<or> c \<in> set deck)"
proof -
  let ?Q = "\<lambda>deck last_card crd (y :: exn + string \<times> nat).
     \<forall>c j. y = Inr (c, j) \<longrightarrow> Some c \<noteq> last_card \<and> (c = crd \<or> c \<in> set deck)"
  have "?Q deck last_card crd (Inr (c, j))"
  proof (rule rechoose.raw_induct
      [where P = "\<lambda>deck rnd last_card crd i y. ?Q deck last_card crd y", OF _ run], goal_cases)
    case (1 rechoose deck rnd last_card crd i y)
    show ?case
    proof (cases "Some crd = last_card")
      case False
      with 1(2) show ?thesis by auto
    next
      case True
      show ?thesis
      proof (cases "choice deck (rnd i)")
        case (Inl e)
        with True 1(2) show ?thesis by auto
      next
        case (Inr crd')
        with True 1(2) have "rechoose deck rnd last_card crd' (Suc i) = Some y"
          by simp
        from 1(1) [OF this] choice_in_deck [OF Inr] show ?thesis
          by auto
      qed
    qed
  qed
  then show ?thesis by blast
qed

lemma rechoose_hangs:
  assumes "deck \<noteq> []" and "\<forall>c\<in>set deck. Some c = last_card" and "Some crd = last_card"
  shows "rechoose deck rnd last_card crd i = None"
proof (cases "rechoose deck rnd last_card crd i")
  case None
  then show ?thesis .
next
  case (Some y)
  let ?Q = "\<lambda>deck last_card crd.
     deck \<noteq> [] \<longrightarrow> (\<forall>c\<in>set deck. Some c = last_card) \<longrightarrow> Some crd \<noteq> last_card"
  have "?Q deck last_card crd"
  proof (rule rechoose.raw_induct
      [where P = "\<lambda>deck rnd last_card crd i y. ?Q deck last_card crd", OF _ Some], goal_cases)
    case (1 rechoose deck rnd last_card crd i y)
    show ?case
    proof (intro impI notI)
      assume ne: "deck \<noteq> []" and all: "\<forall>c\<in>set deck. Some c = last_card"
        and eq: "Some crd = last_card"
      from ne obtain crd' where ch: "choice deck (rnd i) = Inr crd'"
        using choice_not_IndexError by blast
      with eq 1(2) have "rechoose deck rnd last_card crd' (Suc i) = Some y"
        by simp
      from 1(1) [OF this] ne all have "Some crd' \<noteq> last_card"
        by blast
      moreover from choice_in_deck [OF ch] all have "Some crd' = last_card"
        by blast
      ultimately show False by contradiction
    qed
  qed
  with assms show ?thesis by blast
qed

lemma show_loop_invariant:
  assumes run: "show_loop ev wait st last_card i k = Some out"
  shows "\<exists>cs. stdout (final out) = stdout st @ cs \<and> distinct_adj cs \<and>
           (cs \<noteq> [] \<longrightarrow> Some (hd cs) \<noteq> last_card) \<and> set cs \<subseteq> set (flashcards st) \<and>
           flashcards (final out) = flashcards st"
proof -
  let ?Q = "\<lambda>st last_card out.
     \<exists>cs. stdout (final out) = stdout st @ cs \<and> distinct_adj cs \<and>
           (cs \<noteq> [] \<longrightarrow> Some (hd cs) \<noteq> last_card) \<and> set cs \<subseteq> set (flashcards st) \<and>
           flashcards (final out) = flashcards st"
  show "?Q st last_card out"
  proof (rule show_loop.raw_induct
      [where P = "\<lambda>ev wait st last_card i k out. ?Q st last_card out", OF _ run], goal_cases)
  case (1 show_loop ev wait st last_card i k out)
  define st1 where "st1 = (if hotkey ev k then quit_flashcards st else st)"
  have st1: "stdout st1 = stdout st" "flashcards st1 = flashcards st"
    by (simp_all add: st1_def quit_flashcards_def)
  note body = 1(2) [unfolded Let_def, folded st1_def]
  show ?case
  proof (cases "stop_flashcards st1")
    case True
    with body have "out = Returns st1"
      by simp
    with st1 show ?thesis by simp
  next
    case run: False
    show ?thesis
    proof (cases "choice (flashcards st1) (randoms ev i)")
      case (Inl e)
      with run body have "out = Raises e st1"
        by simp
      with st1 show ?thesis by simp
    next
      case (Inr crd0)
      show ?thesis
      proof (cases "rechoose (flashcards st1) (randoms ev) last_card crd0 (Suc i)")
        case None
        with run Inr body show ?thesis
          by simp
      next
        case (Some r)
        show ?thesis
        proof (cases r)
          case (Inl e)
          with run Inr Some body have "out = Raises e st1"
            by simp
          with st1 show ?thesis by simp
        next
          case r: (Inr p)
          obtain crd i' where p: "p = (crd, i')" by (cases p)
          define st2 where "st2 = st1\<lparr>stdout := stdout st1 @ [crd]\<rparr>"
          from rechoose_differs [of "flashcards st1" "randoms ev" last_card crd0 "Suc i" crd i']
            Some r p choice_in_deck [OF Inr]
          have crd: "Some crd \<noteq> last_card" "crd \<in> set (flashcards st)"
            by (auto simp: st1)
          show ?thesis
          proof (cases "sleep wait")
            case (Inl e)
            with run Inr Some r p body have "out = Raises e st2"
              by (simp add: st2_def)
            with st1 crd show ?thesis by (simp add: st2_def)
          next
            case sl: (Inr u)
            with run Inr Some r p body
            have "show_loop ev wait st2 (Some crd) i' (Suc k) = Some out"
              by (simp add: st2_def)
            from 1(1) [OF this] obtain cs where cs:
              "stdout (final out) = stdout st2 @ cs" "distinct_adj cs"
              "cs \<noteq> [] \<longrightarrow> Some (hd cs) \<noteq> Some crd" "set cs \<subseteq> set (flashcards st2)"
              "flashcards (final out) = flashcards st2"
              by blast
            have "stdout (final out) = stdout st @ (crd # cs)"
              using cs(1) st1 by (simp add: st2_def)
            moreover have "distinct_adj (crd # cs)"
              using cs(2,3) by (cases cs) auto
            moreover have "set (crd # cs) \<subseteq> set (flashcards st)"
              using cs(4) crd(2) st1 by (simp add: st2_def)
            moreover have "flashcards (final out) = flashcards st"
              using cs(5) st1 by (simp add: st2_def)
            ultimately show ?thesis
              using crd(1) by (intro exI [of _ "crd # cs"]) simp
          qed
        qed
      qed
    qed
  qed
  qed
qed

text \<open>One unfolding of each loop, case by case.\<close>

lemma rechoose_done:
  "Some crd \<noteq> last_card \<Longrightarrow> rechoose deck rnd last_card crd i = Some (Inr (crd, i))"
  by (simp add: rechoose.simps [of deck rnd last_card crd i])

lemma show_loop_stop:
  assumes "stop_flashcards st \<or> hotkey ev k"
  shows "show_loop ev wait st last_card i k = Some (Returns (st\<lparr>stop_flashcards := True\<rparr>))"
proof (cases "hotkey ev k")
  case True
  then show ?thesis
    by (simp add: show_loop.simps [of ev wait st last_card i k] quit_flashcards_def)
next
  case False
  with assms have "stop_flashcards st" by simp
  then have "st\<lparr>stop_flashcards := True\<rparr> = st" by (cases st) simp
  with False \<open>stop_flashcards st\<close> show ?thesis
    by (simp add: show_loop.simps [of ev wait st last_card i k])
qed

lemma show_loop_step:
  assumes "\<not> stop_flashcards st" and "\<not> hotkey ev k"
    and "choice (flashcards st) (randoms ev i) = Inr crd0"
    and "rechoose (flashcards st) (randoms ev) last_card crd0 (Suc i) = Some (Inr (crd, i'))"
    and "sleep wait = Inr ()"
  shows "show_loop ev wait st last_card i k =
         show_loop ev wait (st\<lparr>stdout := stdout st @ [crd]\<rparr>) (Some crd) i' (Suc k)"
  using assms by (simp add: show_loop.simps [of ev wait st last_card i k])

lemma show_loop_choice_raises:
  assumes "\<not> stop_flashcards st" and "\<not> hotkey ev k"
    and "choice (flashcards st) (randoms ev i) = Inl e"
  shows "show_loop ev wait st last_card i k = Some (Raises e st)"
  using assms by (simp add: show_loop.simps [of ev wait st last_card i k])

lemma show_loop_hangs:
  assumes "\<not> stop_flashcards st" and "\<not> hotkey ev k"
    and "choice (flashcards st) (randoms ev i) = Inr crd0"
    and "rechoose (flashcards st) (randoms ev) last_card crd0 (Suc i) = None"
  shows "show_loop ev wait st last_card i k = None"
  using assms by (simp add: show_loop.simps [of ev wait st last_card i k])

lemma single_card_hangs:
  assumes deck: "flashcards st = [c]" and run: "\<not> stop_flashcards st"
    and k0: "\<not> hotkey ev 0" and k1: "\<not> hotkey ev 1" and sl: "sleep wait = Inr ()"
  shows "show_flashcards ev wait st = None"
proof -
  have ch: "choice [c] r = Inr c" for r
    by (simp add: choice_def)
  have "show_loop ev wait st None 0 0 =
        show_loop ev wait (st\<lparr>stdout := stdout st @ [c]\<rparr>) (Some c) (Suc 0) (Suc 0)"
    using run k0 sl by (intro show_loop_step [where ?crd0.0 = c]) (simp_all add: deck ch rechoose_done)
  also have "\<dots> = None"
    using run k1
    by (intro show_loop_hangs [where ?crd0.0 = c]) (simp_all add: deck ch rechoose_hangs)
  finally show ?thesis
    by (simp add: show_flashcards_def)
qed

subsection \<open>Loading and \<^verbatim>\<open>main\<close>\<close>

lemma load_flashcards_text:
  "files ev path = Inr text \<Longrightarrow>
   load_flashcards ev path st = (Inr True, st\<lparr>flashcards := usable_lines (splitlines text)\<rparr>)"
  by (simp add: load_flashcards_def filter_keep_card)

lemma load_flashcards_OSError:
  "files ev path = Inl (OSError msg) \<Longrightarrow>
   load_flashcards ev path st = (Inr False, st\<lparr>stdout := stdout st @ [msg]\<rparr>)"
  by (simp add: load_flashcards_def)

lemma main_loaded:
  "files ev (args_flashcards (parse_args cl)) = Inr text \<Longrightarrow>
   main ev cl st =
   show_flashcards ev (args_wait (parse_args cl))
     (st\<lparr>stdout := stdout st @ banner, flashcards := usable_lines (splitlines text)\<rparr>)"
  by (simp add: main_def Let_def load_flashcards_text)

lemma usable_lines_empty_iff:
  "usable_lines ls = [] \<longleftrightarrow> list_all (\<lambda>l. l = [] \<or> hd l = CHR ''#'') ls"
  by (auto simp: usable_lines_def filter_empty_conv list_all_iff)

lemma usable_lines_are_lines: "list_all is_line ls \<Longrightarrow> list_all is_line (usable_lines ls)"
  by (simp add: usable_lines_def list_all_iff)

subsection \<open>Two complete runs\<close>

lemma three_cards_run:
  "show_flashcards (example_env [''a'', ''b'', ''c''] (\<lambda>i. i div 2) (\<lambda>k. 3 \<le> k)) (PyInt 5)
     \<lparr>flashcards = [''a'', ''b'', ''c''], stop_flashcards = False, stdout = banner\<rparr>
   = Some (Returns \<lparr>flashcards = [''a'', ''b'', ''c''], stop_flashcards = True,
        stdout = banner @ [''a'', ''b'', ''c'']\<rparr>)"
  by code_simp

lemma two_cards_run:
  "show_flashcards (example_env [] (\<lambda>i. 3 * i + 1) (\<lambda>k. k = 4)) (PyInt 0)
     \<lparr>flashcards = [''x'', ''y''], stop_flashcards = False, stdout = []\<rparr>
   = Some (Returns \<lparr>flashcards = [''x'', ''y''], stop_flashcards = True,
        stdout = [''y'', ''x'', ''y'', ''x'']\<rparr>)"
  by code_simp

section \<open>The claims\<close>

text \<open>
  Claim C3. For every readable file the loader succeeds and the deck is exactly the lines
  of the text that are not empty and do not start with \<^verbatim>\<open>#\<close>, in their order. No
  card contains a line terminator. When every line is blank or a comment the deck is
  empty. For a text made of lines ended by \<^verbatim>\<open>\n\<close> (the last one possibly without
  it), the lines that \<^verbatim>\<open>splitlines\<close> finds are these lines.
\<close>

theorem load_flashcards_usable_lines:
  assumes "files ev path = Inr text"
  shows "load_flashcards ev path st = (Inr True, st\<lparr>flashcards := usable_lines (splitlines text)\<rparr>) \<and>
         list_all is_line (usable_lines (splitlines text)) \<and>
         (list_all (\<lambda>l. l = [] \<or> hd l = CHR ''#'') (splitlines text) \<longrightarrow>
            usable_lines (splitlines text) = []) \<and>
         (\<forall>ls l. list_all is_line (ls @ [l]) \<and> text = file_text ls @ l \<longrightarrow>
            usable_lines (splitlines text) = usable_lines (ls @ (if l = [] then [] else [l])))"
proof (intro conjI allI impI)
  show "load_flashcards ev path st = (Inr True, st\<lparr>flashcards := usable_lines (splitlines text)\<rparr>)"
    using assms by (rule load_flashcards_text)
  show "list_all is_line (usable_lines (splitlines text))"
    by (rule usable_lines_are_lines) (rule splitlines_lines)
  show "usable_lines (splitlines text) = []"
    if "list_all (\<lambda>l. l = [] \<or> hd l = CHR ''#'') (splitlines text)"
    using that by (simp add: usable_lines_empty_iff)
  show "usable_lines (splitlines text) = usable_lines (ls @ (if l = [] then [] else [l]))"
    if "list_all is_line (ls @ [l]) \<and> text = file_text ls @ l" for ls l
    using that splitlines_file_text [of ls l] by simp
qed

theorem load_flashcards_usable_lines_witness:
  "load_flashcards
     (example_env [''What is 2+2'', ''# comment'', ''Name a primary color'', ''''] id (\<lambda>k. False))
     ''flashcards.txt'' init_state
   = (Inr True, init_state\<lparr>flashcards := [''What is 2+2'', ''Name a primary color'']\<rparr>) \<and>
   load_flashcards (example_env ['''', ''# one'', ''#'', ''''] id (\<lambda>k. False))
     ''flashcards.txt'' init_state
   = (Inr True, init_state\<lparr>flashcards := []\<rparr>)"
proof -
  let ?A = "[''What is 2+2'', ''# comment'', ''Name a primary color'', '''']"
  let ?B = "['''', ''# one'', ''#'', '''']"
  have fa: "files (example_env ?A id (\<lambda>k. False)) ''flashcards.txt'' = Inr (file_text ?A)"
    by (simp add: example_env_def)
  have fb: "files (example_env ?B id (\<lambda>k. False)) ''flashcards.txt'' = Inr (file_text ?B)"
    by (simp add: example_env_def)
  have la: "list_all is_line (?A @ [[]])" and lb: "list_all is_line (?B @ [[]])"
    by (simp_all add: is_line_def is_linebreak_def)
  note A = load_flashcards_usable_lines [OF fa, of init_state]
  note B = load_flashcards_usable_lines [OF fb, of init_state]
  have "usable_lines (splitlines (file_text ?A)) = usable_lines ?A"
    using A [THEN conjunct2, THEN conjunct2, THEN conjunct2, rule_format, of ?A "[]"] la
    by simp
  with A [THEN conjunct1]
  have "load_flashcards (example_env ?A id (\<lambda>k. False)) ''flashcards.txt'' init_state
        = (Inr True, init_state\<lparr>flashcards := usable_lines ?A\<rparr>)"
    by simp
  moreover
  have "splitlines (file_text ?B) = ?B"
    using lb by (intro splitlines_file_text_lines) simp
  then have "usable_lines (splitlines (file_text ?B)) = []"
    using B [THEN conjunct2, THEN conjunct2, THEN conjunct1] by simp
  with B [THEN conjunct1]
  have "load_flashcards (example_env ?B id (\<lambda>k. False)) ''flashcards.txt'' init_state
        = (Inr True, init_state\<lparr>flashcards := []\<rparr>)"
    by simp
  ultimately show ?thesis
    by (simp add: usable_lines_def)
qed

text \<open>
  Claim C9. The loader excludes a line exactly when it is the empty string or its first
  character is \<^verbatim>\<open>#\<close>: a line holding a single space is kept, and so is a line whose
  \<^verbatim>\<open>#\<close> comes after another character.
\<close>

theorem keep_card_exact:
  "keep_card crd = (crd \<noteq> [] \<and> hd crd \<noteq> CHR ''#'') \<and>
   keep_card '' '' \<and> keep_card '' # note'' \<and> \<not> keep_card '''' \<and> \<not> keep_card ''# note'' \<and>
   load_flashcards (example_env ['' '', ''# note'', '''', '' # note''] rnd keys) ''flashcards.txt'' st
   = (Inr True, st\<lparr>flashcards := ['' '', '' # note'']\<rparr>)"
proof -
  let ?ls = "['' '', ''# note'', '''', '' # note'']"
  have "list_all is_line ?ls"
    by (simp add: is_line_def is_linebreak_def)
  then have "splitlines (file_text ?ls) = ?ls"
    by (rule splitlines_file_text_lines)
  then have "load_flashcards (example_env ?ls rnd keys) ''flashcards.txt'' st
             = (Inr True, st\<lparr>flashcards := ['' '', '' # note'']\<rparr>)"
    by (simp add: load_flashcards_def example_env_def)
  then show ?thesis
    by (simp add: keep_card_iff)
qed

text \<open>
  Claim C10. When opening the file fails, \<^verbatim>\<open>load_flashcards\<close> returns \<^verbatim>\<open>False\<close> and
  the global deck keeps the value it had before the call; only the message is printed.
\<close>

theorem load_flashcards_failure_keeps_deck:
  assumes "files ev path = Inl (OSError msg)"
  shows "load_flashcards ev path st = (Inr False, st\<lparr>stdout := stdout st @ [msg]\<rparr>) \<and>
         flashcards (snd (load_flashcards ev path st)) = flashcards st"
  using assms by (simp add: load_flashcards_OSError)

theorem load_flashcards_failure_keeps_deck_witness:
  "load_flashcards (example_env [''new''] id (\<lambda>k. False)) ''missing.txt''
     \<lparr>flashcards = [''old''], stop_flashcards = False, stdout = []\<rparr>
   = (Inr False, \<lparr>flashcards = [''old''], stop_flashcards = False,
        stdout = [no_such_file ''missing.txt'']\<rparr>)"
proof -
  have "files (example_env [''new''] id (\<lambda>k. False)) ''missing.txt''
        = Inl (OSError (no_such_file ''missing.txt''))"
    by (simp add: example_env_def)
  from load_flashcards_failure_keeps_deck [OF this] show ?thesis
    by simp
qed




text \<open>
  Claim C6. In a run of the Display Loop on a deck of at least two cards, no two cards
  printed one after the other are equal, and every printed card is a card of the deck.
  The statement covers every run: the hotkeys are arbitrary, so any finite part of a run
  is the run in which a hotkey is pressed at that moment.
\<close>

theorem show_flashcards_no_immediate_repeat:
  assumes "2 \<le> length (flashcards st)" and "show_flashcards ev wait st = Some out"
  shows "stdout (final out) = stdout st @ shown st (final out) \<and>
         distinct_adj (shown st (final out)) \<and>
         set (shown st (final out)) \<subseteq> set (flashcards st)"
proof -
  from assms(2) have "show_loop ev wait st None 0 0 = Some out"
    by (simp add: show_flashcards_def)
  from show_loop_invariant [OF this] obtain cs where
    "stdout (final out) = stdout st @ cs" "distinct_adj cs" "set cs \<subseteq> set (flashcards st)"
    by blast
  then show ?thesis
    by (simp add: shown_def)
qed

theorem show_flashcards_no_immediate_repeat_witness:
  "show_flashcards (example_env [''a'', ''b'', ''c''] (\<lambda>i. i div 2) (\<lambda>k. 3 \<le> k)) (PyInt 5)
     \<lparr>flashcards = [''a'', ''b'', ''c''], stop_flashcards = False, stdout = banner\<rparr>
   = Some (Returns \<lparr>flashcards = [''a'', ''b'', ''c''], stop_flashcards = True,
        stdout = banner @ [''a'', ''b'', ''c'']\<rparr>) \<and>
   shown \<lparr>flashcards = [''a'', ''b'', ''c''], stop_flashcards = False, stdout = banner\<rparr>
     \<lparr>flashcards = [''a'', ''b'', ''c''], stop_flashcards = True,
        stdout = banner @ [''a'', ''b'', ''c'']\<rparr> = [''a'', ''b'', ''c''] \<and>
   distinct_adj (shown \<lparr>flashcards = [''a'', ''b'', ''c''], stop_flashcards = False, stdout = banner\<rparr>
     \<lparr>flashcards = [''a'', ''b'', ''c''], stop_flashcards = True,
        stdout = banner @ [''a'', ''b'', ''c'']\<rparr>)"
proof -
  let ?st = "\<lparr>flashcards = [''a'', ''b'', ''c''], stop_flashcards = False, stdout = banner\<rparr>"
  let ?st' = "\<lparr>flashcards = [''a'', ''b'', ''c''], stop_flashcards = True,
        stdout = banner @ [''a'', ''b'', ''c'']\<rparr>"
  have len: "2 \<le> length (flashcards ?st)"
    by simp
  have sh: "shown ?st ?st' = [''a'', ''b'', ''c'']"
    by (simp add: shown_def)
  from show_flashcards_no_immediate_repeat [OF len three_cards_run]
  have "distinct_adj (shown ?st (final (Returns ?st')))"
    by (rule conjunct2 [THEN conjunct1])
  then have "distinct_adj (shown ?st ?st')"
    by (simp only: final.simps)
  with three_cards_run sh show ?thesis
    by (intro conjI)
qed

text \<open>
  Claim C8. The Display Loop leaves the deck as the loader made it, contents and order,
  however the run ends; the hotkey callback does not touch it either.
\<close>

theorem show_flashcards_keeps_deck:
  assumes "show_flashcards ev wait st = Some out"
  shows "flashcards (final out) = flashcards st \<and>
         flashcards (quit_flashcards st) = flashcards st"
proof -
  from assms have "show_loop ev wait st None 0 0 = Some out"
    by (simp add: show_flashcards_def)
  from show_loop_invariant [OF this] show ?thesis
    by (auto simp: quit_flashcards_def)
qed

theorem show_flashcards_keeps_deck_witness:
  "show_flashcards (example_env [] (\<lambda>i. 3 * i + 1) (\<lambda>k. k = 4)) (PyInt 0)
     \<lparr>flashcards = [''x'', ''y''], stop_flashcards = False, stdout = []\<rparr>
   = Some (Returns \<lparr>flashcards = [''x'', ''y''], stop_flashcards = True,
        stdout = [''y'', ''x'', ''y'', ''x'']\<rparr>) \<and>
   flashcards (final (Returns \<lparr>flashcards = [''x'', ''y''], stop_flashcards = True,
        stdout = [''y'', ''x'', ''y'', ''x'']\<rparr>))
   = flashcards \<lparr>flashcards = [''x'', ''y''], stop_flashcards = False, stdout = []\<rparr>"
  using two_cards_run show_flashcards_keeps_deck [OF two_cards_run, THEN conjunct1]
  by (rule conjI)

text \<open>
  Claim C7. At whatever test of the loop condition the stop flag is set, the loop returns
  there without an error and without printing anything more. \<^verbatim>\<open>time.sleep\<close> is the last
  statement of the body, so a flag set before or during a wait is seen at the test that
  follows this wait: the card of the iteration is the last one printed. Time itself is
  not modelled: the end of the wait interval is this next test.
\<close>

theorem stop_flag_ends_loop:
  "(stop_flashcards st \<or> hotkey ev k \<longrightarrow>
      show_loop ev wait st last_card i k = Some (Returns (st\<lparr>stop_flashcards := True\<rparr>))) \<and>
   (\<not> stop_flashcards st \<and> \<not> hotkey ev k \<and>
    choice (flashcards st) (randoms ev i) = Inr crd0 \<and>
    rechoose (flashcards st) (randoms ev) last_card crd0 (Suc i) = Some (Inr (crd, i')) \<and>
    sleep wait = Inr () \<and> hotkey ev (Suc k) \<longrightarrow>
      show_loop ev wait st last_card i k
      = Some (Returns (st\<lparr>stdout := stdout st @ [crd], stop_flashcards := True\<rparr>)))"
proof (intro conjI impI)
  assume "stop_flashcards st \<or> hotkey ev k"
  then show "show_loop ev wait st last_card i k = Some (Returns (st\<lparr>stop_flashcards := True\<rparr>))"
    by (rule show_loop_stop)
next
  assume a: "\<not> stop_flashcards st \<and> \<not> hotkey ev k \<and>
    choice (flashcards st) (randoms ev i) = Inr crd0 \<and>
    rechoose (flashcards st) (randoms ev) last_card crd0 (Suc i) = Some (Inr (crd, i')) \<and>
    sleep wait = Inr () \<and> hotkey ev (Suc k)"
  then have "show_loop ev wait st last_card i k =
        show_loop ev wait (st\<lparr>stdout := stdout st @ [crd]\<rparr>) (Some crd) i' (Suc k)"
    by (intro show_loop_step [where ?crd0.0 = crd0]) simp_all
  also from a have "\<dots> = Some (Returns (st\<lparr>stdout := stdout st @ [crd], stop_flashcards := True\<rparr>))"
    by (intro show_loop_stop) simp
  finally show "show_loop ev wait st last_card i k
      = Some (Returns (st\<lparr>stdout := stdout st @ [crd], stop_flashcards := True\<rparr>))" .
qed

theorem stop_flag_ends_loop_witness:
  "show_loop (example_env [] id (\<lambda>k. k = 7)) (PyInt 5)
     \<lparr>flashcards = [''a'', ''b''], stop_flashcards = False, stdout = [''a'']\<rparr> (Some ''a'') 4 7
   = Some (Returns (\<lparr>flashcards = [''a'', ''b''], stop_flashcards = False, stdout = [''a'']\<rparr>
        \<lparr>stop_flashcards := True\<rparr>)) \<and>
   show_loop (example_env [] id (\<lambda>k. k = 7)) (PyInt 5)
     \<lparr>flashcards = [''a'', ''b''], stop_flashcards = False, stdout = [''a'']\<rparr> (Some ''a'') 4 6
   = Some (Returns (\<lparr>flashcards = [''a'', ''b''], stop_flashcards = False, stdout = [''a'']\<rparr>
        \<lparr>stdout := stdout \<lparr>flashcards = [''a'', ''b''], stop_flashcards = False, stdout = [''a'']\<rparr>
           @ [''b''], stop_flashcards := True\<rparr>))"
proof -
  let ?ev = "example_env [] id (\<lambda>k. k = 7)"
  let ?st = "\<lparr>flashcards = [''a'', ''b''], stop_flashcards = False, stdout = [''a'']\<rparr>"
  have h1: "stop_flashcards ?st \<or> hotkey ?ev 7"
    by code_simp
  have h2: "\<not> stop_flashcards ?st \<and> \<not> hotkey ?ev 6 \<and>
    choice (flashcards ?st) (randoms ?ev 4) = Inr ''a'' \<and>
    rechoose (flashcards ?st) (randoms ?ev) (Some ''a'') ''a'' (Suc 4) = Some (Inr (''b'', 6)) \<and>
    sleep (PyInt 5) = Inr () \<and> hotkey ?ev (Suc 6)"
    by code_simp
  note thm1 = stop_flag_ends_loop [where st = ?st and ev = ?ev and k = 7 and wait = "PyInt 5"
      and last_card = "Some ''a''" and i = 4, THEN conjunct1, rule_format, OF h1]
  note thm2 = stop_flag_ends_loop [where st = ?st and ev = ?ev and k = 6 and wait = "PyInt 5"
      and last_card = "Some ''a''" and i = 4 and ?crd0.0 = "''a''" and crd = "''b''" and i' = 6,
      THEN conjunct2, rule_format, OF h2]
  from thm1 thm2 show ?thesis
    by (rule conjI)
qed

text \<open>
  Claim C1 fails on the code. With a deck of one card the first cycle prints the card;
  when no hotkey was pressed by the second test of the loop condition, the inner loop
  \<^verbatim>\<open>while card == last_card\<close> draws the same card for ever, whatever the random draws
  are, and no later hotkey is seen: the run never returns.
\<close>

theorem single_card_deck_hangs:
  "main (example_env [''only card''] rnd (\<lambda>k. 1 \<le> k)) no_options init_state
   = Some (Returns \<lparr>flashcards = [''only card''], stop_flashcards = True,
        stdout = banner @ [''only card'']\<rparr>) \<and>
   main (example_env [''only card''] rnd (\<lambda>k. 2 \<le> k)) no_options init_state = None"
proof -
  let ?st = "\<lparr>flashcards = [''only card''], stop_flashcards = False, stdout = banner\<rparr>"
  have lines: "usable_lines (splitlines (file_text [''only card''])) = [''only card'']"
    by code_simp
  have m: "main (example_env [''only card''] rnd keys) no_options init_state
           = show_flashcards (example_env [''only card''] rnd keys) (PyInt 5) ?st" for keys
    using main_loaded [of "example_env [''only card''] rnd keys" no_options
        "file_text [''only card'']" init_state]
    by (simp add: lines example_env_def no_options_def parse_args_def init_state_def)
  have ch: "choice [''only card''] r = Inr ''only card''" for r
    by (simp add: choice_def)
  let ?ev1 = "example_env [''only card''] rnd (\<lambda>k. 1 \<le> k)"
  have "show_loop ?ev1 (PyInt 5) ?st None 0 0
        = show_loop ?ev1 (PyInt 5) (?st\<lparr>stdout := stdout ?st @ [''only card'']\<rparr>)
            (Some ''only card'') (Suc 0) (Suc 0)"
    by (intro show_loop_step [where ?crd0.0 = "''only card''"])
      (simp_all add: ch rechoose_done example_env_def)
  also have "\<dots> = Some (Returns (?st\<lparr>stdout := stdout ?st @ [''only card''],
        stop_flashcards := True\<rparr>))"
    by (intro show_loop_stop) (simp add: example_env_def)
  finally have "show_flashcards ?ev1 (PyInt 5) ?st
        = Some (Returns \<lparr>flashcards = [''only card''], stop_flashcards = True,
             stdout = banner @ [''only card'']\<rparr>)"
    by (simp add: show_flashcards_def)
  moreover have "show_flashcards (example_env [''only card''] rnd (\<lambda>k. 2 \<le> k)) (PyInt 5) ?st = None"
    by (rule single_card_hangs [where c = "''only card''"]) (simp_all add: example_env_def)
  ultimately show ?thesis
    by (simp only: m simp_thms)
qed

text \<open>
  Claim C2 fails on the code. A file holding only a comment and a blank line is loaded
  with success, and \<^verbatim>\<open>main\<close> ends with the \<^verbatim>\<open>IndexError\<close> that \<^verbatim>\<open>random.choice\<close>
  raises on the empty deck inside \<^verbatim>\<open>show_flashcards\<close>.
\<close>

theorem empty_deck_reaches_random_choice:
  "load_flashcards (example_env [''# only a comment'', ''''] id (\<lambda>k. False)) ''flashcards.txt''
     (init_state\<lparr>stdout := banner\<rparr>)
   = (Inr True, \<lparr>flashcards = [], stop_flashcards = False, stdout = banner\<rparr>) \<and>
   main (example_env [''# only a comment'', ''''] id (\<lambda>k. False)) no_options init_state
   = Some (Raises IndexError \<lparr>flashcards = [], stop_flashcards = False, stdout = banner\<rparr>)"
  by code_simp

text \<open>
  Claim C2 as amended. A readable file without usable lines is not rejected before the
  Display Loop: \<^verbatim>\<open>load_flashcards\<close> returns \<^verbatim>\<open>True\<close> with an empty deck and \<^verbatim>\<open>main\<close>
  calls \<^verbatim>\<open>show_flashcards\<close> on it. With an empty deck the run prints no card and does
  not hang: it ends with the banner as its only output.
\<close>

theorem empty_deck_not_rejected:
  assumes "files ev (args_flashcards (parse_args cl)) = Inr text"
    and "usable_lines (splitlines text) = []"
  shows "load_flashcards ev (args_flashcards (parse_args cl)) (st\<lparr>stdout := stdout st @ banner\<rparr>)
           = (Inr True, st\<lparr>stdout := stdout st @ banner, flashcards := []\<rparr>) \<and>
         main ev cl st = show_flashcards ev (args_wait (parse_args cl))
           (st\<lparr>stdout := stdout st @ banner, flashcards := []\<rparr>) \<and>
         (\<exists>out. main ev cl st = Some out \<and> stdout (final out) = stdout st @ banner)"
proof -
  let ?st = "st\<lparr>stdout := stdout st @ banner, flashcards := []\<rparr>"
  let ?w = "args_wait (parse_args cl)"
  have l: "load_flashcards ev (args_flashcards (parse_args cl)) (st\<lparr>stdout := stdout st @ banner\<rparr>)
           = (Inr True, ?st)"
    using load_flashcards_text [OF assms(1)] assms(2) by simp
  have m: "main ev cl st = show_flashcards ev ?w ?st"
    using main_loaded [OF assms(1)] assms(2) by simp
  have "\<exists>out. show_loop ev ?w ?st None 0 0 = Some out \<and> stdout (final out) = stdout st @ banner"
  proof (cases "stop_flashcards ?st \<or> hotkey ev 0")
    case True
    from show_loop_stop [OF this] show ?thesis
      by simp
  next
    case False
    then have "show_loop ev ?w ?st None 0 0 = Some (Raises IndexError ?st)"
      by (intro show_loop_choice_raises) (simp_all add: choice_Nil)
    then show ?thesis
      by simp
  qed
  with l m show ?thesis
    by (simp add: show_flashcards_def)
qed

theorem empty_deck_not_rejected_witness:
  "files (example_env ['''', ''#''] id (\<lambda>k. True))
     (args_flashcards (parse_args no_options)) = Inr (file_text ['''', ''#'']) \<and>
   usable_lines (splitlines (file_text ['''', ''#''])) = [] \<and>
   main (example_env ['''', ''#''] id (\<lambda>k. True)) no_options init_state
   = show_flashcards (example_env ['''', ''#''] id (\<lambda>k. True)) (args_wait (parse_args no_options))
       (init_state\<lparr>stdout := stdout init_state @ banner, flashcards := []\<rparr>) \<and>
   (\<exists>out. main (example_env ['''', ''#''] id (\<lambda>k. True)) no_options init_state = Some out \<and>
          stdout (final out) = stdout init_state @ banner)"
proof -
  have h1: "files (example_env ['''', ''#''] id (\<lambda>k. True))
     (args_flashcards (parse_args no_options)) = Inr (file_text ['''', ''#''])"
    by (simp add: example_env_def parse_args_def no_options_def)
  have h2: "usable_lines (splitlines (file_text ['''', ''#''])) = []"
    by code_simp
  note run = empty_deck_not_rejected [OF h1 h2, of init_state]
  from h1 h2 run [THEN conjunct2, THEN conjunct1] run [THEN conjunct2, THEN conjunct2]
  show ?thesis
    by (intro conjI)
qed

text \<open>
  Claim C5 fails on the code. The parser stores the value of \<^verbatim>\<open>--wait\<close> as a string
  and rejects nothing; \<^verbatim>\<open>time.sleep\<close> then raises \<^verbatim>\<open>TypeError\<close> after the first card,
  for \<^verbatim>\<open>abc\<close> and for \<^verbatim>\<open>1.5\<close> alike, and the process exits with code 1.
\<close>

theorem wait_option_string_raises_TypeError:
  "parse_args \<lparr>cli_flashcards = None, cli_wait = Some ''abc''\<rparr>
   = \<lparr>args_flashcards = ''flashcards.txt'', args_wait = PyStr ''abc''\<rparr> \<and>
   main (example_env [''a'', ''b''] id (\<lambda>k. False))
     \<lparr>cli_flashcards = None, cli_wait = Some ''abc''\<rparr> init_state
   = Some (Raises TypeError \<lparr>flashcards = [''a'', ''b''], stop_flashcards = False,
        stdout = banner @ [''a'']\<rparr>) \<and>
   main (example_env [''a'', ''b''] id (\<lambda>k. False))
     \<lparr>cli_flashcards = None, cli_wait = Some ''1.5''\<rparr> init_state
   = Some (Raises TypeError \<lparr>flashcards = [''a'', ''b''], stop_flashcards = False,
        stdout = banner @ [''a'']\<rparr>) \<and>
   exit_code (Raises TypeError \<lparr>flashcards = [''a'', ''b''], stop_flashcards = False,
        stdout = banner @ [''a'']\<rparr>) = 1"
  by code_simp

end
